theory Spec2Isabelle
  imports Complex_Main "HOL-Library.Word" "HOL-Library.Sublist"
begin

section \<open>JavaScript values\<close>

text \<open>
  A JavaScript string is a sequence of 16-bit code units. \<open>jsstr\<close> writes a string
  literal of the source (all of them are ASCII, or are only compared as a whole) as
  such a sequence.
\<close>

type_synonym jsstring = "16 word list"

definition jsstr :: "string \<Rightarrow> jsstring" where
  "jsstr s = map of_char s"

text \<open>
  The values \<open>JSON.parse\<close> can produce, and \<open>undefined\<close> for a property that is not
  there. An object is the list of its members in the order of the text; where a key
  is repeated the last member wins, as \<open>JSON.parse\<close> has it.
\<close>

datatype jsvalue =
    JUndefined
  | JNull
  | JBoolean bool
  | JNumber rat
  | JString jsstring
  | JArray "jsvalue list"
  | JObject "(jsstring \<times> jsvalue) list"

datatype exn =
    Error jsstring
  | TypeError
  | SyntaxError
  | DOMException jsstring

text \<open>
  \<open>v.k\<close> for a key \<open>k\<close> that no prototype defines (\<open>title\<close> and \<open>description\<close> are
  the only keys the source reads): reading a property of \<open>undefined\<close> or \<open>null\<close>
  throws, a primitive or an array has no such property, an object has it when one of
  its members carries the key.
\<close>

fun getProp :: "jsvalue \<Rightarrow> jsstring \<Rightarrow> exn + jsvalue" where
  "getProp JUndefined k = Inl TypeError"
| "getProp JNull k = Inl TypeError"
| "getProp (JObject kvs) k =
     (case map_of (rev kvs) k of None \<Rightarrow> Inr JUndefined | Some v \<Rightarrow> Inr v)"
| "getProp v k = Inr JUndefined"

text \<open>
  \<open>v.toLowerCase()\<close>: only a string inherits the method. On \<open>undefined\<close> and \<open>null\<close>
  the property read throws, on every other value the property is either missing or
  a parsed JSON value, and calling it throws. The case table of the host's
  \<open>String.prototype.toLowerCase\<close> is not part of the repository, so the method
  itself is the parameter \<open>lc\<close> of everything below.
\<close>

fun callToLowerCase :: "(jsstring \<Rightarrow> jsstring) \<Rightarrow> jsvalue \<Rightarrow> exn + jsstring" where
  "callToLowerCase lc (JString s) = Inr (lc s)"
| "callToLowerCase lc v = Inl TypeError"

text \<open>
  The lower-case mapping of Unicode on the code units up to \<open>0x00FF\<close> (Basic Latin
  and Latin-1 Supplement); the concrete runs below use it on such strings.
\<close>

definition lowerUnit :: "16 word \<Rightarrow> 16 word" where
  "lowerUnit c =
     (if (0x41 \<le> c \<and> c \<le> 0x5A) \<or> (0xC0 \<le> c \<and> c \<le> 0xDE \<and> c \<noteq> 0xD7)
      then c + 0x20 else c)"

definition toLowerCaseLatin1 :: "jsstring \<Rightarrow> jsstring" where
  "toLowerCaseLatin1 s = map lowerUnit s"

text \<open>\<open>s.includes(q)\<close>: \<open>q\<close> occurs in \<open>s\<close> at some position.\<close>

fun includes_js :: "jsstring \<Rightarrow> jsstring \<Rightarrow> bool" where
  "includes_js [] q = (q = [])"
| "includes_js (x # xs) q = (prefix q (x # xs) \<or> includes_js xs q)"

text \<open>
  \<open>s.trim()\<close> removes the white space and line terminators of ECMAScript from both
  ends: TAB, LF, VT, FF, CR, SP, NBSP, U+1680, U+2000 to U+200A, U+2028, U+2029,
  U+202F, U+205F, U+3000 and U+FEFF.
\<close>

definition isWhiteSpace :: "16 word \<Rightarrow> bool" where
  "isWhiteSpace c =
     ((0x9 \<le> c \<and> c \<le> 0xD) \<or> c = 0x20 \<or> c = 0xA0 \<or> c = 0x1680
      \<or> (0x2000 \<le> c \<and> c \<le> 0x200A) \<or> c = 0x2028 \<or> c = 0x2029
      \<or> c = 0x202F \<or> c = 0x205F \<or> c = 0x3000 \<or> c = 0xFEFF)"

definition trim :: "jsstring \<Rightarrow> jsstring" where
  "trim s = rev (dropWhile isWhiteSpace (rev (dropWhile isWhiteSpace s)))"

text \<open>
  \<open>Array.prototype.filter\<close> with a callback that can throw: the elements are visited
  from the left, the first exception ends the call, the kept elements come out in
  the order of the array.
\<close>

fun filter_js :: "(jsvalue \<Rightarrow> exn + bool) \<Rightarrow> jsvalue list \<Rightarrow> exn + jsvalue list" where
  "filter_js p [] = Inr []"
| "filter_js p (x # xs) =
     (case p x of
        Inl e \<Rightarrow> Inl e
      | Inr keep \<Rightarrow>
          (case filter_js p xs of
             Inl e \<Rightarrow> Inl e
           | Inr ys \<Rightarrow> Inr (if keep then x # ys else ys)))"

text \<open>\<open>v.filter(p)\<close>: only an array has the method.\<close>

fun callFilter :: "jsvalue \<Rightarrow> (jsvalue \<Rightarrow> exn + bool) \<Rightarrow> exn + jsvalue list" where
  "callFilter (JArray items) p = filter_js p items"
| "callFilter v p = Inl TypeError"

section \<open>The search widget (js/app.js)\<close>

record vm =
  query :: jsstring
  data :: jsvalue

definition initial :: vm where
  "initial = \<lparr>query = [], data = JArray []\<rparr>"

definition title_key :: jsstring where
  "title_key = jsstr ''title''"

definition description_key :: jsstring where
  "description_key = jsstr ''description''"

text \<open>
  The callback of \<open>filteredResults\<close>:
  \<^verbatim>\<open>item => item.title.toLowerCase().includes(this.query.toLowerCase()) ||
          item.description.toLowerCase().includes(this.query.toLowerCase())\<close>
  The right operand of \<open>||\<close> is evaluated only when the left one is false.
\<close>

definition itemMatches :: "(jsstring \<Rightarrow> jsstring) \<Rightarrow> jsstring \<Rightarrow> jsvalue \<Rightarrow> exn + bool" where
  "itemMatches lc q item =
     (case getProp item title_key of
        Inl e \<Rightarrow> Inl e
      | Inr t \<Rightarrow>
          (case callToLowerCase lc t of
             Inl e \<Rightarrow> Inl e
           | Inr lowTitle \<Rightarrow>
               if includes_js lowTitle (lc q) then Inr True
               else
                 (case getProp item description_key of
                    Inl e \<Rightarrow> Inl e
                  | Inr d \<Rightarrow>
                      (case callToLowerCase lc d of
                         Inl e \<Rightarrow> Inl e
                       | Inr lowDesc \<Rightarrow> Inr (includes_js lowDesc (lc q))))))"

definition filteredResults :: "(jsstring \<Rightarrow> jsstring) \<Rightarrow> vm \<Rightarrow> exn + jsvalue list" where
  "filteredResults lc self =
     (if trim (query self) = [] then Inr []
      else callFilter (data self) (itemMatches lc (query self)))"

text \<open>
  The catalog of the spec: every entry carries a text \<open>title\<close> and a text
  \<open>description\<close>. \<open>stringField\<close> reads a field that is there and is a string.
\<close>

definition stringField :: "jsvalue \<Rightarrow> jsstring \<Rightarrow> jsstring option" where
  "stringField item k =
     (case getProp item k of Inr (JString s) \<Rightarrow> Some s | _ \<Rightarrow> None)"

definition isPageEntry :: "jsvalue \<Rightarrow> bool" where
  "isPageEntry item =
     (stringField item title_key \<noteq> None \<and> stringField item description_key \<noteq> None)"

text \<open>
  The predicate of the spec, in the spec's words: \<open>s\<close> contains \<open>q\<close> as a substring,
  compared case-insensitively; an entry matches when its title or its description
  does.
\<close>

definition containsCI :: "(jsstring \<Rightarrow> jsstring) \<Rightarrow> jsstring \<Rightarrow> jsstring \<Rightarrow> bool" where
  "containsCI lc s q = sublist (lc q) (lc s)"

definition entryMatches :: "(jsstring \<Rightarrow> jsstring) \<Rightarrow> jsstring \<Rightarrow> jsvalue \<Rightarrow> bool" where
  "entryMatches lc q item =
     ((case stringField item title_key of None \<Rightarrow> False | Some t \<Rightarrow> containsCI lc t q)
      \<or> (case stringField item description_key of None \<Rightarrow> False | Some d \<Rightarrow> containsCI lc d q))"

text \<open>
  The entries at which the callback throws: the title is missing or no string, or
  the title is a string that does not match and the description is missing or no
  string.
\<close>

definition entryThrows :: "(jsstring \<Rightarrow> jsstring) \<Rightarrow> jsstring \<Rightarrow> jsvalue \<Rightarrow> bool" where
  "entryThrows lc q item =
     (case stringField item title_key of
        None \<Rightarrow> True
      | Some t \<Rightarrow> \<not> containsCI lc t q \<and> stringField item description_key = None)"

subsection \<open>Loading the catalog\<close>

text \<open>How a promise settles.\<close>

datatype 'a outcome = Fulfilled 'a | Rejected exn

text \<open>
  \<open>p.then(f)\<close> for a callback \<open>f\<close> that returns a promise or throws: a rejection of
  \<open>p\<close> passes through, a fulfilment is handed to \<open>f\<close>.
\<close>

definition andThen :: "'a outcome \<Rightarrow> ('a \<Rightarrow> 'b outcome) \<Rightarrow> 'b outcome" where
  "andThen p f = (case p of Rejected e \<Rightarrow> Rejected e | Fulfilled x \<Rightarrow> f x)"

text \<open>
  What the page does to the outside: the diagnostic channel (\<open>console.log\<close>,
  \<open>console.error\<close>) and the blocking notification (\<open>alert\<close>).
\<close>

datatype effect =
    ConsoleLog jsstring jsvalue
  | ConsoleError jsstring exn
  | Alert jsstring

text \<open>
  The response of \<open>fetch\<close>: its \<open>ok\<close> flag, its \<open>statusText\<close>, and how the promise
  of \<open>response.json()\<close> settles (rejected with a \<open>SyntaxError\<close> when the body does
  not parse).
\<close>

record response =
  ok :: bool
  statusText :: jsstring
  json :: "jsvalue outcome"

text \<open>
  \<open>created()\<close>, as a function of how the fetch settles: the component after the
  chain has run, and the effects of the chain.
\<close>

definition created :: "response outcome \<Rightarrow> vm \<Rightarrow> vm \<times> effect list" where
  "created fetched self =
     (case andThen fetched
             (\<lambda>response.
                if \<not> ok response
                then Rejected (Error (jsstr ''Network response was not ok '' @ statusText response))
                else json response) of
        Fulfilled d \<Rightarrow>
          (self\<lparr>data := d\<rparr>, [ConsoleLog (jsstr ''Data loaded successfully:'') d])
      | Rejected error \<Rightarrow>
          (self, [ConsoleError (jsstr ''Error loading pages:'') error]))"

text \<open>
  The state \<open>LoadFailed\<close> of the spec: the fetch is rejected, or the status is not a
  success, or the body does not parse.
\<close>

definition loadFailed :: "response outcome \<Rightarrow> bool" where
  "loadFailed fetched =
     (case fetched of
        Rejected e \<Rightarrow> True
      | Fulfilled r \<Rightarrow> \<not> ok r \<or> (case json r of Rejected e \<Rightarrow> True | Fulfilled d \<Rightarrow> False))"

section \<open>The copy button (js/codes.js)\<close>

definition copiedMessage :: jsstring where
  "copiedMessage =
     jsstr ''Le code a '' @ [0xE9] @ jsstr ''t'' @ [0xE9] @ jsstr '' copi'' @ [0xE9]
       @ jsstr '' dans le presse-papiers !''"

definition copyErrorLabel :: jsstring where
  "copyErrorLabel = jsstr ''Erreur lors de la copie : ''"

definition manualCopyMessage :: jsstring where
  "manualCopyMessage = jsstr ''Impossible de copier le code. Copiez-le manuellement.''"

text \<open>
  The page at the time of a click: the \<open>innerText\<close> of the element \<open>myCode\<close> when
  there is one, and whether \<open>navigator.clipboard\<close> is defined.
\<close>

record page =
  myCode :: "jsstring option"
  clipboard :: bool

text \<open>
  The synchronous part of the click handler, up to the call of \<open>writeText\<close>: the text
  handed to the clipboard, or the \<open>TypeError\<close> of reading a property of \<open>null\<close> or
  \<open>undefined\<close>.
\<close>

definition clickHandler :: "page \<Rightarrow> exn + jsstring" where
  "clickHandler pg =
     (case myCode pg of
        None \<Rightarrow> Inl TypeError
      | Some codeToCopy \<Rightarrow> if clipboard pg then Inr codeToCopy else Inl TypeError)"

text \<open>
  The callbacks of \<open>writeText(codeToCopy).then(...).catch(...)\<close>, as a function of how
  the write settles.
\<close>

definition copyChain :: "unit outcome \<Rightarrow> effect list" where
  "copyChain written =
     (case written of
        Fulfilled u \<Rightarrow> [Alert copiedMessage]
      | Rejected err \<Rightarrow> [ConsoleError copyErrorLabel err, Alert manualCopyMessage])"

text \<open>
  The handler on the event loop. A click that reaches \<open>writeText\<close> starts a write,
  numbered in the order of the clicks; the platform settles a pending write later,
  and only then are its callbacks run. The trace records the requests, the
  settlements, and the effects with the write they belong to.
\<close>

datatype input = Click page | Settle nat "unit outcome"

datatype entry =
    Requested nat jsstring
  | Uncaught exn
  | Settled nat "unit outcome"
  | Emitted nat effect

record copier =
  nextId :: nat
  pending :: "nat list"
  trace :: "entry list"

definition start :: copier where
  "start = \<lparr>nextId = 0, pending = [], trace = []\<rparr>"

fun step :: "input \<Rightarrow> copier \<Rightarrow> copier" where
  "step (Click pg) s =
     (case clickHandler pg of
        Inl e \<Rightarrow> s\<lparr>trace := trace s @ [Uncaught e]\<rparr>
      | Inr codeToCopy \<Rightarrow>
          s\<lparr>nextId := Suc (nextId s),
            pending := nextId s # pending s,
            trace := trace s @ [Requested (nextId s) codeToCopy]\<rparr>)"
| "step (Settle n written) s =
     (if n \<in> set (pending s)
      then s\<lparr>pending := removeAll n (pending s),
             trace := trace s @ Settled n written # map (Emitted n) (copyChain written)\<rparr>
      else s)"

fun run :: "input list \<Rightarrow> copier \<Rightarrow> copier" where
  "run [] s = s"
| "run (i # is) s = run is (step i s)"

text \<open>
  The effects of the write \<open>n\<close> in a trace, in the order of the trace.
\<close>

fun effectsOf :: "nat \<Rightarrow> entry list \<Rightarrow> effect list" where
  "effectsOf n [] = []"
| "effectsOf n (Emitted m e # tr) = (if m = n then e # effectsOf n tr else effectsOf n tr)"
| "effectsOf n (x # tr) = effectsOf n tr"

text \<open>
  How the platform settles the write \<open>n\<close> in a sequence of inputs, if it does.
\<close>

fun settlement :: "nat \<Rightarrow> input list \<Rightarrow> unit outcome option" where
  "settlement n [] = None"
| "settlement n (Settle m written # is) = (if m = n then Some written else settlement n is)"
| "settlement n (Click pg # is) = settlement n is"

text \<open>
  The sequences of inputs a platform can produce: it settles only a write that has
  been started, and each write at most once. \<open>k\<close> counts the writes started so far,
  \<open>settled\<close> lists the writes settled so far.
\<close>

fun admissible :: "nat \<Rightarrow> nat list \<Rightarrow> input list \<Rightarrow> bool" where
  "admissible k settled [] = True"
| "admissible k settled (Click pg # is) =
     admissible (case clickHandler pg of Inl e \<Rightarrow> k | Inr codeToCopy \<Rightarrow> Suc k) settled is"
| "admissible k settled (Settle n written # is) =
     (n < k \<and> n \<notin> set settled \<and> admissible k (n # settled) is)"

section \<open>Sample data\<close>

text \<open>The catalog of the scenario in the spec, and an entry without a description.\<close>

definition arcWelding :: jsvalue where
  "arcWelding =
     JObject [(title_key, JString (jsstr ''Arc Welding'')),
              (description_key, JString (jsstr ''...''))]"

definition metalPrep :: jsvalue where
  "metalPrep =
     JObject [(title_key, JString (jsstr ''Metal Prep'')),
              (description_key, JString (jsstr ''for arc stability''))]"

definition titleOnly :: jsvalue where
  "titleOnly = JObject [(title_key, JString (jsstr ''Arc''))]"

text \<open>
  A page whose code can be copied, and two clicks on it whose writes settle in the
  opposite order, the second rejected and the first fulfilled.
\<close>

definition codeA :: page where
  "codeA = \<lparr>myCode = Some (jsstr ''E6013''), clipboard = True\<rparr>"

definition twoWrites :: "input list" where
  "twoWrites =
     [Click codeA, Click codeA,
      Settle 1 (Rejected (DOMException (jsstr ''NotAllowedError''))),
      Settle 0 (Fulfilled ())]"

lemmas sample_defs =
  arcWelding_def metalPrep_def titleOnly_def title_key_def description_key_def jsstr_def

lemmas string_defs =
  trim_def isWhiteSpace_def toLowerCaseLatin1_def lowerUnit_def

section \<open>Auxiliary facts\<close>

text \<open>
  The recursive search of \<open>includes_js\<close> finds exactly the contiguous sublists, the
  callback throws nothing but a \<open>TypeError\<close>, and on every entry it either throws or
  decides the predicate of the spec.
\<close>

lemma includes_js_sublist: "includes_js s q = sublist q s"
  by (induction s) (auto simp: sublist_Cons_right)

lemma getProp_error: "getProp item k = Inl e \<Longrightarrow> e = TypeError"
  by (cases item) (auto split: option.splits)

lemma callToLowerCase_cases:
  "callToLowerCase lc v = (case v of JString s \<Rightarrow> Inr (lc s) | _ \<Rightarrow> Inl TypeError)"
  by (cases v) auto

lemma itemMatches_cases:
  "itemMatches lc q item =
     (if entryThrows lc q item then Inl TypeError else Inr (entryMatches lc q item))"
  unfolding itemMatches_def entryThrows_def entryMatches_def stringField_def containsCI_def
  by (auto simp: includes_js_sublist callToLowerCase_cases dest: getProp_error
      split: sum.splits jsvalue.splits)

lemma filter_js_itemMatches:
  "filter_js (itemMatches lc q) xs =
     (if \<exists>e\<in>set xs. entryThrows lc q e then Inl TypeError
      else Inr (filter (entryMatches lc q) xs))"
  by (induction xs) (auto simp: itemMatches_cases)

lemma isPageEntry_not_throws: "isPageEntry e \<Longrightarrow> \<not> entryThrows lc q e"
  by (auto simp: isPageEntry_def entryThrows_def split: option.splits)

lemma filter_js_idem:
  "filter_js p xs = Inr r \<Longrightarrow> filter_js p r = Inr r"
  by (induction xs arbitrary: r) (auto split: sum.splits if_splits)

text \<open>
  A trace that grows at its end: an element of the longer trace lies in the old part
  or in the new one.
\<close>

lemma append_split_cases:
  "xs @ ys = pre @ x # post \<Longrightarrow>
   (\<exists>post'. xs = pre @ x # post') \<or> (\<exists>pre'. pre = xs @ pre' \<and> ys = pre' @ x # post)"
  by (induction xs arbitrary: pre) (auto simp: Cons_eq_append_conv)

lemma chain_split:
  "Settled n w # map (Emitted n) es = pre' @ Emitted m e # post \<Longrightarrow>
   m = n \<and> Settled n w \<in> set pre'"
  by (cases pre') (auto simp: map_eq_append_conv  append_eq_map_conv Cons_eq_map_conv)

lemma step_settled_before:
  assumes inv: "\<And>pre n e post. trace s = pre @ Emitted n e # post \<Longrightarrow> \<exists>w. Settled n w \<in> set pre"
    and new: "trace (step i s) = pre @ Emitted n e # post"
  shows "\<exists>w. Settled n w \<in> set pre"
proof (cases i)
  case (Click pg)
  show ?thesis
  proof (cases "clickHandler pg")
    case (Inl err)
    with Click new have "trace s @ [Uncaught err] = pre @ Emitted n e # post" by simp
    from append_split_cases [OF this] inv show ?thesis
      by (auto simp: Cons_eq_append_conv)
  next
    case (Inr code)
    with Click new have "trace s @ [Requested (nextId s) code] = pre @ Emitted n e # post"
      by simp
    from append_split_cases [OF this] inv show ?thesis
      by (auto simp: Cons_eq_append_conv)
  qed
next
  case (Settle m w)
  show ?thesis
  proof (cases "m \<in> set (pending s)")
    case False
    with Settle new inv show ?thesis by simp
  next
    case True
    with Settle new
    have "trace s @ (Settled m w # map (Emitted m) (copyChain w)) = pre @ Emitted n e # post"
      by simp
    from append_split_cases [OF this] show ?thesis
    proof
      assume "\<exists>post'. trace s = pre @ Emitted n e # post'"
      with inv show ?thesis by blast
    next
      assume "\<exists>pre'. pre = trace s @ pre'
                \<and> Settled m w # map (Emitted m) (copyChain w) = pre' @ Emitted n e # post"
      then obtain pre' where p: "pre = trace s @ pre'"
        and c: "Settled m w # map (Emitted m) (copyChain w) = pre' @ Emitted n e # post"
        by blast
      from chain_split [OF c] p show ?thesis by auto
    qed
  qed
qed

lemma run_settled_before:
  assumes "\<And>pre n e post. trace s = pre @ Emitted n e # post \<Longrightarrow> \<exists>w. Settled n w \<in> set pre"
    and "trace (run inputs s) = pre @ Emitted n e # post"
  shows "\<exists>w. Settled n w \<in> set pre"
  using assms
proof (induction inputs arbitrary: s pre n e post)
  case Nil
  then show ?case by simp
next
  case (Cons i inputs)
  show ?case
  proof (rule Cons.IH)
    show "\<exists>w. Settled n' w \<in> set pre'"
      if "trace (step i s) = pre' @ Emitted n' e' # post'" for pre' n' e' post'
      using step_settled_before [OF Cons.prems(1) that] .
    show "trace (run inputs (step i s)) = pre @ Emitted n e # post"
      using Cons.prems(2) by simp
  qed
qed

text \<open>
  The effects of a write over a whole run: nothing before the write settles, the
  callbacks of its settlement afterwards, and nothing more, since a write settles
  once.
\<close>

lemma effectsOf_append: "effectsOf n (xs @ ys) = effectsOf n xs @ effectsOf n ys"
  by (induction n xs rule: effectsOf.induct) auto

lemma effectsOf_chain:
  "effectsOf n (map (Emitted m) es) = (if m = n then es else [])"
  by (induction es) auto

lemma settled_once:
  "admissible k settled inputs \<Longrightarrow> n \<in> set settled \<Longrightarrow> settlement n inputs = None"
  by (induction k settled inputs rule: admissible.induct) auto

lemma run_effectsOf:
  "admissible k settled inputs \<Longrightarrow> nextId s = k \<Longrightarrow> set settled \<subseteq> {..<k} \<Longrightarrow>
   set (pending s) = {..<k} - set settled \<Longrightarrow>
   effectsOf n (trace (run inputs s))
   = effectsOf n (trace s)
     @ (case settlement n inputs of None \<Rightarrow> [] | Some written \<Rightarrow> copyChain written)"
proof (induction k settled inputs arbitrary: s rule: admissible.induct)
  case (1 k settled)
  then show ?case by simp
next
  case (2 k settled pg "is")
  show ?case
  proof (cases "clickHandler pg")
    case (Inl err)
    with 2 show ?thesis by (simp add: effectsOf_append)
  next
    case (Inr code)
    have "effectsOf n (trace (run is (step (Click pg) s)))
          = effectsOf n (trace (step (Click pg) s))
            @ (case settlement n is of None \<Rightarrow> [] | Some written \<Rightarrow> copyChain written)"
      using 2 Inr by (intro "2.IH") (auto simp: lessThan_Suc)
    with Inr show ?thesis by (simp add: effectsOf_append)
  qed
next
  case (3 k settled m written "is")
  from "3.prems" have adm: "admissible k (m # settled) is" and mk: "m < k"
    and fresh: "m \<notin> set settled" by simp_all
  with "3.prems" have pend: "m \<in> set (pending s)" by auto
  let ?s = "step (Settle m written) s"
  have ih: "effectsOf n (trace (run is ?s))
          = effectsOf n (trace ?s)
            @ (case settlement n is of None \<Rightarrow> [] | Some written \<Rightarrow> copyChain written)"
    using adm "3.prems" pend mk by (intro "3.IH") auto
  show ?case
  proof (cases "m = n")
    case True
    with adm have "settlement n is = None" by (intro settled_once [OF adm]) simp
    with ih pend True show ?thesis by (simp add: effectsOf_append effectsOf_chain)
  next
    case False
    with ih pend show ?thesis by (simp add: effectsOf_append effectsOf_chain)
  qed
qed

section \<open>The filter operation\<close>

text \<open>
  C1 (amended). For every catalog \<open>C\<close> whose entries carry a text title and a text
  description, and every query \<open>q\<close> that is not empty after trimming, the filter
  returns exactly the entries of \<open>C\<close> whose title or description contains \<open>q\<close> as a
  substring, compared case-insensitively, in the order of the catalog: the result is
  \<open>filter\<close> of the catalog by that predicate, so every returned entry satisfies it,
  every entry that satisfies it is returned, and the order is kept.
\<close>

theorem filteredResults_exact:
  "list_all isPageEntry C \<Longrightarrow> trim q \<noteq> [] \<Longrightarrow>
   filteredResults lc \<lparr>query = q, data = JArray C\<rparr> = Inr (filter (entryMatches lc q) C)"
  by (simp add: filteredResults_def filter_js_itemMatches list_all_iff isPageEntry_not_throws)

theorem filteredResults_exact_witness:
  "list_all isPageEntry [arcWelding, metalPrep] \<and> trim (jsstr ''arc'') \<noteq> []
   \<and> filteredResults toLowerCaseLatin1
       \<lparr>query = jsstr ''arc'', data = JArray [arcWelding, metalPrep]\<rparr>
     = Inr [arcWelding, metalPrep]"
proof -
  have wf: "list_all isPageEntry [arcWelding, metalPrep]"
    by (simp add: isPageEntry_def stringField_def sample_defs)
  have ne: "trim (jsstr ''arc'') \<noteq> []"
    by (simp add: string_defs jsstr_def)
  have m: "filter (entryMatches toLowerCaseLatin1 (jsstr ''arc'')) [arcWelding, metalPrep]
           = [arcWelding, metalPrep]"
    by (simp add: entryMatches_def containsCI_def stringField_def sample_defs string_defs
        sublist_code(3))
  show ?thesis
    using filteredResults_exact [OF wf ne, of toLowerCaseLatin1] wf ne m by simp
qed

text \<open>
  C1 as stated asks only for a non-empty query. The query of one space is not empty;
  the title \<open>Arc Welding\<close> contains it, and the filter returns nothing, because the
  guard looks at the trimmed query.
\<close>

theorem filteredResults_space_counterexample:
  "jsstr '' '' \<noteq> [] \<and> isPageEntry arcWelding
   \<and> entryMatches toLowerCaseLatin1 (jsstr '' '') arcWelding
   \<and> filteredResults toLowerCaseLatin1 \<lparr>query = jsstr '' '', data = JArray [arcWelding]\<rparr>
     = Inr []"
  by (simp add: filteredResults_def entryMatches_def containsCI_def isPageEntry_def
      stringField_def sample_defs string_defs sublist_code(3))

text \<open>
  C2. Whatever the catalog holds (an array of any entries, or no array at all), a
  query that is empty after trimming gives the empty sequence.
\<close>

theorem filteredResults_blank:
  "trim q = [] \<Longrightarrow> filteredResults lc \<lparr>query = q, data = C\<rparr> = Inr []"
  by (simp add: filteredResults_def)

theorem filteredResults_blank_witness:
  "trim (jsstr ''  '') = []
   \<and> filteredResults toLowerCaseLatin1
       \<lparr>query = jsstr ''  '', data = JArray [arcWelding, metalPrep]\<rparr> = Inr []"
  using filteredResults_blank [of "jsstr ''  ''" toLowerCaseLatin1 "JArray [arcWelding, metalPrep]"]
  by (simp add: trim_def isWhiteSpace_def jsstr_def)

text \<open>
  C3. Filtering is idempotent: when the filter throws, so does the composition, and
  when it returns \<open>r\<close>, filtering \<open>r\<close> by the same query returns \<open>r\<close> again. This holds
  for every value of \<open>data\<close> and every query.
\<close>

theorem filteredResults_idempotent:
  "(case filteredResults lc \<lparr>query = q, data = C\<rparr> of
      Inl e \<Rightarrow> Inl e
    | Inr r \<Rightarrow> filteredResults lc \<lparr>query = q, data = JArray r\<rparr>)
   = filteredResults lc \<lparr>query = q, data = C\<rparr>"
proof (cases "trim q = []")
  case True
  then show ?thesis by (simp add: filteredResults_def)
next
  case False
  show ?thesis
  proof (cases "filteredResults lc \<lparr>query = q, data = C\<rparr>")
    case (Inl e)
    then show ?thesis by simp
  next
    case (Inr r)
    with False obtain xs where "C = JArray xs" "filter_js (itemMatches lc q) xs = Inr r"
      by (cases C) (auto simp: filteredResults_def)
    then have "filter_js (itemMatches lc q) r = Inr r"
      using filter_js_idem by blast
    with False Inr show ?thesis by (simp add: filteredResults_def)
  qed
qed

theorem filteredResults_idempotent_witness:
  "filteredResults toLowerCaseLatin1
     \<lparr>query = jsstr ''prep'', data = JArray [arcWelding, metalPrep]\<rparr> = Inr [metalPrep]
   \<and> filteredResults toLowerCaseLatin1
     \<lparr>query = jsstr ''prep'', data = JArray [metalPrep]\<rparr> = Inr [metalPrep]"
proof -
  have once: "filteredResults toLowerCaseLatin1
      \<lparr>query = jsstr ''prep'', data = JArray [arcWelding, metalPrep]\<rparr> = Inr [metalPrep]"
    by (simp add: filteredResults_def itemMatches_def sample_defs string_defs)
  show ?thesis
    using filteredResults_idempotent [of toLowerCaseLatin1 "jsstr ''prep''"
        "JArray [arcWelding, metalPrep]"] once
    by simp
qed

text \<open>
  C9 (amended). On a catalog whose entries all carry a text title and a text
  description the filter never throws, whatever the query. With a query that is not
  empty after trimming, the filter throws a \<open>TypeError\<close> exactly when the catalog has an
  entry whose title is missing or no string, or whose title is a string that does not
  match while its description is missing or no string; otherwise it returns the
  matching entries.
\<close>

theorem filteredResults_throws:
  "(list_all isPageEntry C \<longrightarrow>
      filteredResults lc \<lparr>query = q, data = JArray C\<rparr>
      = Inr (if trim q = [] then [] else filter (entryMatches lc q) C))
   \<and> (trim q \<noteq> [] \<longrightarrow>
      filteredResults lc \<lparr>query = q, data = JArray C\<rparr>
      = (if \<exists>e\<in>set C. entryThrows lc q e then Inl TypeError
         else Inr (filter (entryMatches lc q) C)))"
  by (simp add: filteredResults_def filter_js_itemMatches list_all_iff isPageEntry_not_throws)

theorem filteredResults_throws_witness:
  "list_all isPageEntry [arcWelding, metalPrep] \<and> trim (jsstr ''prep'') \<noteq> []
   \<and> filteredResults toLowerCaseLatin1
        \<lparr>query = jsstr ''prep'', data = JArray [arcWelding, metalPrep]\<rparr> = Inr [metalPrep]
   \<and> entryThrows toLowerCaseLatin1 (jsstr ''prep'') titleOnly
   \<and> filteredResults toLowerCaseLatin1
        \<lparr>query = jsstr ''prep'', data = JArray [arcWelding, titleOnly, metalPrep]\<rparr>
      = Inl TypeError"
proof -
  have wf: "list_all isPageEntry [arcWelding, metalPrep]"
    by (simp add: isPageEntry_def stringField_def sample_defs)
  have ne: "trim (jsstr ''prep'') \<noteq> []"
    by (simp add: string_defs jsstr_def)
  have m: "filter (entryMatches toLowerCaseLatin1 (jsstr ''prep'')) [arcWelding, metalPrep]
           = [metalPrep]"
    by (simp add: entryMatches_def containsCI_def stringField_def sample_defs string_defs
        sublist_code(3))
  have t: "entryThrows toLowerCaseLatin1 (jsstr ''prep'') titleOnly"
    by (simp add: entryThrows_def containsCI_def stringField_def sample_defs string_defs
        sublist_code(3))
  show ?thesis
    using filteredResults_throws [of "[arcWelding, metalPrep]" toLowerCaseLatin1 "jsstr ''prep''"]
      filteredResults_throws [of "[arcWelding, titleOnly, metalPrep]" toLowerCaseLatin1 "jsstr ''prep''"]
      wf ne m t
    by simp
qed

text \<open>
  C9 as stated has the filter throw as soon as some entry lacks a title or a
  description. An entry with a matching title and no description is returned: the
  right operand of \<open>||\<close> is not evaluated.
\<close>

theorem filteredResults_titleOnly_counterexample:
  "\<not> isPageEntry titleOnly \<and> stringField titleOnly description_key = None
   \<and> trim (jsstr ''arc'') \<noteq> []
   \<and> filteredResults toLowerCaseLatin1 \<lparr>query = jsstr ''arc'', data = JArray [titleOnly]\<rparr>
     = Inr [titleOnly]"
  by (simp add: filteredResults_def itemMatches_def isPageEntry_def stringField_def
      sample_defs string_defs)

text \<open>
  C10. For a query that is not empty after trimming and has white space at an end,
  the entries are matched against the query as typed, white space included: the
  result is the catalog filtered by the untrimmed query. It is not the catalog
  filtered by the trimmed query: for the query \<open>" arc"\<close> the entry titled
  \<open>Arc Welding\<close> is not returned, although its title contains \<open>arc\<close>.
\<close>

theorem filteredResults_untrimmed:
  "(list_all isPageEntry C \<and> trim q \<noteq> [] \<and> trim q \<noteq> q \<longrightarrow>
      filteredResults lc \<lparr>query = q, data = JArray C\<rparr> = Inr (filter (entryMatches lc q) C))
   \<and> filteredResults toLowerCaseLatin1 \<lparr>query = jsstr '' arc'', data = JArray [arcWelding]\<rparr>
     \<noteq> Inr (filter (entryMatches toLowerCaseLatin1 (trim (jsstr '' arc''))) [arcWelding])"
proof -
  have "filteredResults toLowerCaseLatin1 \<lparr>query = jsstr '' arc'', data = JArray [arcWelding]\<rparr>
        = Inr []"
    by (simp add: filteredResults_def itemMatches_def sample_defs string_defs)
  moreover have "filter (entryMatches toLowerCaseLatin1 (trim (jsstr '' arc''))) [arcWelding]
        = [arcWelding]"
    by (simp add: entryMatches_def containsCI_def stringField_def sample_defs string_defs
        sublist_code(3))
  ultimately show ?thesis
    by (simp add: filteredResults_def filter_js_itemMatches list_all_iff isPageEntry_not_throws)
qed

theorem filteredResults_untrimmed_witness:
  "list_all isPageEntry [arcWelding, metalPrep] \<and> trim (jsstr ''arc '') \<noteq> []
   \<and> trim (jsstr ''arc '') \<noteq> jsstr ''arc ''
   \<and> filteredResults toLowerCaseLatin1
        \<lparr>query = jsstr ''arc '', data = JArray [arcWelding, metalPrep]\<rparr>
      = Inr [arcWelding, metalPrep]
   \<and> filter (entryMatches toLowerCaseLatin1 (trim (jsstr ''arc ''))) [arcWelding, metalPrep]
      = [arcWelding, metalPrep]"
proof -
  have wf: "list_all isPageEntry [arcWelding, metalPrep]"
    by (simp add: isPageEntry_def stringField_def sample_defs)
  have ne: "trim (jsstr ''arc '') \<noteq> []" "trim (jsstr ''arc '') \<noteq> jsstr ''arc ''"
    by (simp_all add: string_defs jsstr_def)
  have m: "filter (entryMatches toLowerCaseLatin1 (jsstr ''arc '')) [arcWelding, metalPrep]
           = [arcWelding, metalPrep]"
    by (simp add: entryMatches_def containsCI_def stringField_def sample_defs string_defs
        sublist_code(3))
  have m': "filter (entryMatches toLowerCaseLatin1 (trim (jsstr ''arc ''))) [arcWelding, metalPrep]
           = [arcWelding, metalPrep]"
    by (simp add: entryMatches_def containsCI_def stringField_def sample_defs string_defs
        sublist_code(3))
  show ?thesis
    using filteredResults_untrimmed [of "[arcWelding, metalPrep]" "jsstr ''arc ''" toLowerCaseLatin1]
      wf ne m m'
    by simp
qed

section \<open>Loading\<close>

text \<open>
  C4. When the response has no success status, the chain raises an \<open>Error\<close> whose
  message ends in the status text of the response; the only effect is one
  \<open>console.error\<close> carrying that error (no notification), and the component is left
  as it was, so the catalog of a fresh component stays empty. When the status is a
  success and the body does not parse, the same happens with the error of the parser.
\<close>

theorem created_failure:
  "(\<not> ok response \<longrightarrow>
      created (Fulfilled response) self
      = (self, [ConsoleError (jsstr ''Error loading pages:'')
                  (Error (jsstr ''Network response was not ok '' @ statusText response))]))
   \<and> (ok response \<and> json response = Rejected e \<longrightarrow>
      created (Fulfilled response) self
      = (self, [ConsoleError (jsstr ''Error loading pages:'') e]))
   \<and> (\<not> ok response \<or> json response = Rejected e \<longrightarrow>
      data (fst (created (Fulfilled response) initial)) = JArray [])"
  by (auto simp: created_def andThen_def initial_def)

theorem created_failure_witness:
  "\<not> ok \<lparr>ok = False, statusText = jsstr ''Not Found'', json = Fulfilled JNull\<rparr>
   \<and> created (Fulfilled \<lparr>ok = False, statusText = jsstr ''Not Found'', json = Fulfilled JNull\<rparr>)
        initial
      = (initial, [ConsoleError (jsstr ''Error loading pages:'')
                     (Error (jsstr ''Network response was not ok Not Found''))])
   \<and> ok \<lparr>ok = True, statusText = jsstr ''OK'', json = Rejected SyntaxError\<rparr>
   \<and> created (Fulfilled \<lparr>ok = True, statusText = jsstr ''OK'', json = Rejected SyntaxError\<rparr>)
        initial
      = (initial, [ConsoleError (jsstr ''Error loading pages:'') SyntaxError])
   \<and> data initial = JArray []"
  using created_failure [where self = initial and e = SyntaxError and
        response = "\<lparr>ok = False, statusText = jsstr ''Not Found'', json = Fulfilled JNull\<rparr>"]
    created_failure [where self = initial and e = SyntaxError and
        response = "\<lparr>ok = True, statusText = jsstr ''OK'', json = Rejected SyntaxError\<rparr>"]
  by (simp add: jsstr_def initial_def)

text \<open>
  C6. Before the load has completed, and after a load that failed, the filter
  returns the empty sequence for every query: it never throws, and it has no entry
  to return.
\<close>

theorem empty_until_loaded:
  "filteredResults lc (initial\<lparr>query := q\<rparr>) = Inr []
   \<and> (loadFailed fetched \<longrightarrow>
        filteredResults lc ((fst (created fetched (initial\<lparr>query := q'\<rparr>)))\<lparr>query := q\<rparr>)
        = Inr [])"
  by (auto simp: filteredResults_def initial_def created_def andThen_def loadFailed_def
      split: outcome.splits)

theorem empty_until_loaded_witness:
  "loadFailed (Fulfilled \<lparr>ok = False, statusText = jsstr ''Not Found'',
                           json = Fulfilled (JArray [arcWelding])\<rparr>)
   \<and> filteredResults toLowerCaseLatin1 (initial\<lparr>query := jsstr ''arc''\<rparr>) = Inr []
   \<and> filteredResults toLowerCaseLatin1
       ((fst (created (Fulfilled \<lparr>ok = False, statusText = jsstr ''Not Found'',
                                   json = Fulfilled (JArray [arcWelding])\<rparr>)
                (initial\<lparr>query := jsstr ''a''\<rparr>)))\<lparr>query := jsstr ''arc''\<rparr>)
     = Inr []"
  using empty_until_loaded [where lc = toLowerCaseLatin1 and q = "jsstr ''arc''"
      and q' = "jsstr ''a''" and
      fetched = "Fulfilled \<lparr>ok = False, statusText = jsstr ''Not Found'',
                   json = Fulfilled (JArray [arcWelding])\<rparr>"]
  by (simp add: loadFailed_def)

section \<open>Copying\<close>

text \<open>
  C5. For every clipboard write: in any state in which the write \<open>n\<close> is pending, its
  settlement appends to the trace, when it is fulfilled, one notification of success
  and nothing for the console, and when it is rejected, one \<open>console.error\<close> with the
  error and one notification asking for a manual copy. Over a whole run of clicks
  and settlements, the effects of a write that was fulfilled are exactly that one
  notification, and the effects of a write that was rejected are exactly that one
  console entry and that one notification, however many other writes there are and
  in whatever order they settle.
\<close>

theorem copy_outcomes:
  "(n \<in> set (pending s) \<longrightarrow>
      trace (step (Settle n (Fulfilled ())) s)
      = trace s @ [Settled n (Fulfilled ()), Emitted n (Alert copiedMessage)]
    \<and> trace (step (Settle n (Rejected err)) s)
      = trace s @ [Settled n (Rejected err), Emitted n (ConsoleError copyErrorLabel err),
                   Emitted n (Alert manualCopyMessage)])
   \<and> (admissible 0 [] inputs \<longrightarrow>
      (settlement n inputs = Some (Fulfilled ()) \<longrightarrow>
         effectsOf n (trace (run inputs start)) = [Alert copiedMessage])
    \<and> (settlement n inputs = Some (Rejected err) \<longrightarrow>
         effectsOf n (trace (run inputs start))
         = [ConsoleError copyErrorLabel err, Alert manualCopyMessage]))"
proof -
  have "effectsOf n (trace (run inputs start))
        = (case settlement n inputs of None \<Rightarrow> [] | Some written \<Rightarrow> copyChain written)"
    if "admissible 0 [] inputs"
    using run_effectsOf [OF that, of start n] by (simp add: start_def)
  then show ?thesis by (simp add: copyChain_def)
qed

theorem copy_outcomes_witness:
  "0 \<in> set (pending (step (Click codeA) start))
   \<and> trace (step (Settle 0 (Fulfilled ())) (step (Click codeA) start))
     = [Requested 0 (jsstr ''E6013''), Settled 0 (Fulfilled ()), Emitted 0 (Alert copiedMessage)]
   \<and> admissible 0 [] twoWrites
   \<and> settlement 0 twoWrites = Some (Fulfilled ())
   \<and> effectsOf 0 (trace (run twoWrites start)) = [Alert copiedMessage]
   \<and> settlement 1 twoWrites = Some (Rejected (DOMException (jsstr ''NotAllowedError'')))
   \<and> effectsOf 1 (trace (run twoWrites start))
     = [ConsoleError copyErrorLabel (DOMException (jsstr ''NotAllowedError'')),
        Alert manualCopyMessage]"
proof -
  have p: "0 \<in> set (pending (step (Click codeA) start))"
    by (simp add: codeA_def clickHandler_def start_def)
  have t: "trace (step (Click codeA) start) = [Requested 0 (jsstr ''E6013'')]"
    by (simp add: codeA_def clickHandler_def start_def)
  have a: "admissible 0 [] twoWrites"
    by (simp add: twoWrites_def codeA_def clickHandler_def)
  have s0: "settlement 0 twoWrites = Some (Fulfilled ())"
    and s1: "settlement 1 twoWrites = Some (Rejected (DOMException (jsstr ''NotAllowedError'')))"
    by (simp_all add: twoWrites_def)
  show ?thesis
    using p t a s0 s1
      copy_outcomes [where n = 0 and s = "step (Click codeA) start" and inputs = twoWrites
        and err = "DOMException (jsstr ''NotAllowedError'')"]
      copy_outcomes [where n = 1 and s = "step (Click codeA) start" and inputs = twoWrites
        and err = "DOMException (jsstr ''NotAllowedError'')"]
    by simp
qed

text \<open>
  C8. In every run of the handler, whatever the clicks and however the writes settle,
  a notification that belongs to a write comes after the settlement of that write.
\<close>

theorem notification_after_settlement:
  "trace (run inputs start) = pre @ Emitted n (Alert s) # post \<Longrightarrow>
   \<exists>written. Settled n written \<in> set pre"
  by (rule run_settled_before [where s = start]) (simp_all add: start_def)

theorem notification_after_settlement_witness:
  "trace (run [Click \<lparr>myCode = Some (jsstr ''E6013''), clipboard = True\<rparr>,
               Click \<lparr>myCode = Some (jsstr ''E7018''), clipboard = True\<rparr>,
               Settle 1 (Fulfilled ())] start)
     = [Requested 0 (jsstr ''E6013''), Requested 1 (jsstr ''E7018''), Settled 1 (Fulfilled ())]
       @ Emitted 1 (Alert copiedMessage) # []
   \<and> (\<exists>written. Settled 1 written
         \<in> set [Requested 0 (jsstr ''E6013''), Requested 1 (jsstr ''E7018''),
                Settled 1 (Fulfilled ())])"
proof -
  have tr: "trace (run [Click \<lparr>myCode = Some (jsstr ''E6013''), clipboard = True\<rparr>,
               Click \<lparr>myCode = Some (jsstr ''E7018''), clipboard = True\<rparr>,
               Settle 1 (Fulfilled ())] start)
     = [Requested 0 (jsstr ''E6013''), Requested 1 (jsstr ''E7018''), Settled 1 (Fulfilled ())]
       @ Emitted 1 (Alert copiedMessage) # []"
    by (simp add: start_def clickHandler_def copyChain_def)
  show ?thesis
    using tr notification_after_settlement [OF tr] by simp
qed

end
